theory Spec2Isabelle
  imports Main "HOL-Library.Sublist" "HOL-Library.Product_Lexorder" "HOL-Library.Char_ord"
    "HOL-Library.List_Lexorder"
begin

section \<open>Python strings\<close>

text \<open>
  A Python \<open>str\<close> is modelled as a \<open>string\<close>. The keywords and separators of the
  program are ASCII; the few non-ASCII symbols of its messages are written as their UTF-8
  bytes. \<open>str.lower()\<close> maps \<open>A\<close>..\<open>Z\<close> to \<open>a\<close>..\<open>z\<close> and leaves every other ASCII
  character alone; bytes beyond ASCII are left unchanged here, which agrees with Python on
  every membership test of an ASCII keyword made by the program (no keyword contains a
  letter that a non-ASCII character lower-cases to in a position where it could match).
\<close>

definition lower_char :: "char \<Rightarrow> char" where
  "lower_char c =
     (let n = (of_char c :: nat) in if 65 \<le> n \<and> n \<le> 90 then char_of (n + 32) else c)"

definition lower :: "string \<Rightarrow> string" where
  "lower s = map lower_char s"

text \<open>\<open>sub in s\<close> on strings: \<open>sub\<close> occurs in \<open>s\<close> as a contiguous run.\<close>

abbreviation str_in :: "string \<Rightarrow> string \<Rightarrow> bool" where
  "str_in sub s \<equiv> sublist sub s"

text \<open>\<open>sep.join(xs)\<close>.\<close>

fun join :: "string \<Rightarrow> string list \<Rightarrow> string" where
  "join sep [] = []"
| "join sep [x] = x"
| "join sep (x # y # ys) = x @ sep @ join sep (y # ys)"

section \<open>knowledge\_helper.py: the packing list\<close>

definition packing_essentials :: "string list" where
  "packing_essentials = [''passport'', ''phone charger'', ''medications'', ''comfortable shoes'']"

definition weather_gear_hot :: "string list" where
  "weather_gear_hot = [''sunscreen'', ''hat'', ''light clothing'', ''water bottle'']"

definition weather_gear_cold :: "string list" where
  "weather_gear_cold = [''warm jacket'', ''gloves'', ''hat'', ''thermal underwear'']"

definition weather_gear_rainy :: "string list" where
  "weather_gear_rainy = [''umbrella'', ''waterproof jacket'', ''quick-dry clothes'']"

definition get_packing_list :: "string \<Rightarrow> string \<Rightarrow> int \<Rightarrow> string list" where
  "get_packing_list destination weather duration =
     (let base_list = packing_essentials;
          base_list =
            (if str_in ''hot'' (lower weather) \<or> str_in ''sunny'' (lower weather)
               then base_list @ weather_gear_hot
             else if str_in ''cold'' (lower weather) \<or> str_in ''snow'' (lower weather)
               then base_list @ weather_gear_cold
             else if str_in ''rain'' (lower weather)
               then base_list @ weather_gear_rainy
             else base_list);
          base_list =
            (if duration > 7
               then base_list @ [''laundry detergent'', ''extra underwear'', ''backup electronics'']
             else base_list)
      in base_list)"

section \<open>weather\_tool.py\<close>

text \<open>
  The HTTP call and the JSON decoding are outside the program. Their outcome is an input
  of the model: \<open>Inl e\<close> when anything inside the \<open>try\<close> raised an exception whose text
  is \<open>e\<close>, \<open>Inr data\<close> with the fields the code reads otherwise. JSON numbers are kept
  abstract; \<open>fmt\<close> is the text an f-string gives for them.
\<close>

record 'n current_data =
  cw_name :: string
  cw_country :: string
  cw_temp :: 'n
  cw_description :: string
  cw_humidity :: 'n
  cw_wind_speed :: 'n
  cw_feels_like :: 'n

record 'n forecast_item =
  dt_txt :: string
  fc_temp :: 'n
  fc_description :: string

record 'n forecast_data =
  fc_city_name :: string
  fc_city_country :: string
  fc_list :: "'n forecast_item list"

definition newline :: string where
  "newline = [CHR 0x0A]"

definition degree_sign :: string where
  "degree_sign = [CHR 0xC2, CHR 0xB0]"

definition calendar_sign :: string where
  "calendar_sign = [CHR 0xF0, CHR 0x9F, CHR 0x93, CHR 0x85]"

definition warning_sign :: string where
  "warning_sign = [CHR 0xE2, CHR 0x9A, CHR 0xA0, CHR 0xEF, CHR 0xB8, CHR 0x8F]"

definition snowflake_sign :: string where
  "snowflake_sign = [CHR 0xE2, CHR 0x9D, CHR 0x84, CHR 0xEF, CHR 0xB8, CHR 0x8F]"

definition wind_sign :: string where
  "wind_sign = [CHR 0xF0, CHR 0x9F, CHR 0x92, CHR 0xA8]"






definition indent12 :: string where
  "indent12 = replicate 12 CHR '' ''"

definition get_current_weather ::
  "('n \<Rightarrow> string) \<Rightarrow> (string \<Rightarrow> string) \<Rightarrow> string + 'n current_data \<Rightarrow> string" where
  "get_current_weather fmt title response =
     (case response of
        Inl e \<Rightarrow> ''Error getting weather data: '' @ e
      | Inr weather_info \<Rightarrow>
          ''Current Weather in '' @ cw_name weather_info @ '', '' @ cw_country weather_info
            @ '':'' @ newline
          @ indent12 @ ''Temperature: '' @ fmt (cw_temp weather_info) @ degree_sign
            @ ''C (feels like '' @ fmt (cw_feels_like weather_info) @ degree_sign @ ''C)'' @ newline
          @ indent12 @ ''Condition: '' @ title (cw_description weather_info) @ newline
          @ indent12 @ ''Humidity: '' @ fmt (cw_humidity weather_info) @ ''%'' @ newline
          @ indent12 @ ''Wind Speed: '' @ fmt (cw_wind_speed weather_info) @ '' m/s'')"

subsection \<open>The forecast\<close>

definition forecast_date :: "'n forecast_item \<Rightarrow> string" where
  "forecast_date item = take 10 (dt_txt item)"

definition forecast_time :: "'n forecast_item \<Rightarrow> string" where
  "forecast_time item = take 5 (drop 11 (dt_txt item))"

definition date_heading :: "string \<Rightarrow> string" where
  "date_heading d = newline @ calendar_sign @ '' '' @ d @ '':'' @ newline"

definition sample_line :: "('n \<Rightarrow> string) \<Rightarrow> 'n forecast_item \<Rightarrow> string" where
  "sample_line fmt item =
     ''  '' @ forecast_time item @ '': '' @ fmt (fc_temp item) @ degree_sign @ ''C, ''
       @ fc_description item @ newline"

text \<open>The \<open>for\<close> loop, with its two variables \<open>forecast_text\<close> and \<open>current_date\<close>.\<close>

fun forecast_loop ::
  "('n \<Rightarrow> string) \<Rightarrow> string \<Rightarrow> string option \<Rightarrow> 'n forecast_item list \<Rightarrow> string" where
  "forecast_loop fmt forecast_text current_date [] = forecast_text"
| "forecast_loop fmt forecast_text current_date (item # items) =
     (if Some (forecast_date item) \<noteq> current_date
      then forecast_loop fmt
             (forecast_text @ date_heading (forecast_date item) @ sample_line fmt item)
             (Some (forecast_date item)) items
      else forecast_loop fmt (forecast_text @ sample_line fmt item) current_date items)"

definition forecast_title :: "'n forecast_data \<Rightarrow> string" where
  "forecast_title data =
     ''Weather Forecast for '' @ fc_city_name data @ '', '' @ fc_city_country data @ '':''
       @ newline @ newline"

definition get_weather_forecast :: "('n \<Rightarrow> string) \<Rightarrow> string + 'n forecast_data \<Rightarrow> string" where
  "get_weather_forecast fmt response =
     (case response of
        Inl e \<Rightarrow> ''Error getting forecast data: '' @ e
      | Inr data \<Rightarrow> forecast_loop fmt (forecast_title data) None (fc_list data))"

text \<open>
  The grouping as the specification words it: one group per distinct date, in the order in
  which the dates first occur, each holding all the samples of its date in input order.
\<close>

fun date_groups :: "'n forecast_item list \<Rightarrow> (string \<times> 'n forecast_item list) list" where
  "date_groups [] = []"
| "date_groups (item # items) =
     (forecast_date item, item # filter (\<lambda>i. forecast_date i = forecast_date item) items)
       # date_groups (filter (\<lambda>i. forecast_date i \<noteq> forecast_date item) items)"

definition render_group :: "('n \<Rightarrow> string) \<Rightarrow> string \<times> 'n forecast_item list \<Rightarrow> string" where
  "render_group fmt g = date_heading (fst g) @ concat (map (sample_line fmt) (snd g))"

definition grouped_forecast :: "('n \<Rightarrow> string) \<Rightarrow> 'n forecast_data \<Rightarrow> string" where
  "grouped_forecast fmt data =
     forecast_title data @ concat (map (render_group fmt) (date_groups (fc_list data)))"

subsection \<open>The alerts\<close>

definition rain_alert :: string where
  "rain_alert = warning_sign @ '' Rain/Storm Alert: Consider indoor activities''"

definition snow_alert :: string where
  "snow_alert = snowflake_sign @ '' Snow Alert: Dress warmly and allow extra travel time''"

definition wind_alert :: string where
  "wind_alert = wind_sign @ '' High Wind Alert: Be cautious with outdoor activities''"

text \<open>The list \<open>alerts\<close> after the three tests.\<close>

definition collect_alerts :: "string \<Rightarrow> string list" where
  "collect_alerts weather_info =
     (let alerts = [];
          alerts = (if str_in ''rain'' (lower weather_info) \<or> str_in ''storm'' (lower weather_info)
                    then alerts @ [rain_alert] else alerts);
          alerts = (if str_in ''snow'' (lower weather_info)
                    then alerts @ [snow_alert] else alerts);
          alerts = (if str_in ''wind'' weather_info \<and> str_in ''high'' (lower weather_info)
                    then alerts @ [wind_alert] else alerts)
      in alerts)"

definition get_weather_alerts ::
  "('n \<Rightarrow> string) \<Rightarrow> (string \<Rightarrow> string) \<Rightarrow> string \<Rightarrow> string + 'n current_data
     \<Rightarrow> string" where
  "get_weather_alerts fmt title city response =
     (let weather_info = get_current_weather fmt title response
      in if str_in ''Error'' weather_info then weather_info
         else let alerts = collect_alerts weather_info
              in if alerts \<noteq> []
                 then ''Weather Alerts for '' @ city @ '':'' @ newline @ join newline alerts
                 else ''No weather alerts for '' @ city
                        @ ''. Conditions are favorable for travel!'')"

section \<open>database.py\<close>

subsection \<open>Time stamps\<close>

text \<open>
  \<open>datetime.utcnow()\<close> reads the clock; each reading is an input of the model. A
  \<open>datetime\<close> has the fields of Python's class (year 1..9999, month, day, hour, minute and
  second of two digits), and is ordered field by field.
\<close>

record datetime =
  dt_year :: nat
  dt_month :: nat
  dt_day :: nat
  dt_hour :: nat
  dt_minute :: nat
  dt_second :: nat
  dt_microsecond :: nat

definition dt_key :: "datetime \<Rightarrow> nat \<times> nat \<times> nat \<times> nat \<times> nat \<times> nat \<times> nat" where
  "dt_key t = (dt_year t, dt_month t, dt_day t, dt_hour t, dt_minute t, dt_second t,
               dt_microsecond t)"

definition digit :: "nat \<Rightarrow> char" where
  "digit n = char_of (48 + n mod 10)"

definition pad2 :: "nat \<Rightarrow> string" where
  "pad2 n = [digit (n div 10), digit n]"

definition pad4 :: "nat \<Rightarrow> string" where
  "pad4 n = [digit (n div 1000), digit (n div 100), digit (n div 10), digit n]"

text \<open>\<open>strftime('%Y%m%d_%H%M%S')\<close>.\<close>

definition strftime_trip :: "datetime \<Rightarrow> string" where
  "strftime_trip t =
     pad4 (dt_year t) @ pad2 (dt_month t) @ pad2 (dt_day t) @ ''_''
       @ pad2 (dt_hour t) @ pad2 (dt_minute t) @ pad2 (dt_second t)"

text \<open>Two readings fall within the same second.\<close>

definition same_second :: "datetime \<Rightarrow> datetime \<Rightarrow> bool" where
  "same_second a b =
     (dt_year a = dt_year b \<and> dt_month a = dt_month b \<and> dt_day a = dt_day b \<and>
      dt_hour a = dt_hour b \<and> dt_minute a = dt_minute b \<and> dt_second a = dt_second b)"

subsection \<open>The document store\<close>

text \<open>
  MongoDB is outside the program; the calls the program makes are modelled after their
  documented behaviour. A collection is the list of its documents in insertion order.
  A stored date keeps milliseconds only. \<open>insert_one\<close> gives the document a fresh
  \<open>_id\<close> and adds it; it looks at no other field. \<open>replace_one\<close> with \<open>upsert=True\<close>
  replaces the first document matching the filter, keeping its \<open>_id\<close>, and inserts when
  none matches. \<open>find(...).sort(key, -1).limit(n)\<close> returns the matching documents by
  descending key (documents with equal keys are left in insertion order here; MongoDB
  promises no order among them), all of them when \<open>n = 0\<close> and at most \<open>|n|\<close> otherwise.
  \<open>fault = Some e\<close> stands for a store whose calls raise an exception with text \<open>e\<close>.
\<close>

datatype bson_id = ObjectId nat | IdText nat

definition str_id :: "bson_id \<Rightarrow> bson_id" where
  "str_id i = (case i of ObjectId n \<Rightarrow> IdText n | IdText n \<Rightarrow> IdText n)"

definition bson_datetime :: "datetime \<Rightarrow> datetime" where
  "bson_datetime t = t\<lparr>dt_microsecond := (dt_microsecond t div 1000) * 1000\<rparr>"

record 'p pref_doc =
  pref_oid :: bson_id
  pref_user_id :: string
  pref_preferences :: 'p
  pref_created_at :: datetime
  pref_updated_at :: datetime

record 'v trip_doc =
  trip_oid :: bson_id
  trip_user_id :: string
  trip_id :: string
  trip_destination :: "'v option"
  trip_start_date :: "'v option"
  trip_end_date :: "'v option"
  trip_preferences :: "'v option"
  trip_budget :: "'v option"
  trip_itinerary :: "'v option"
  trip_created_at :: datetime

record memory_doc =
  mem_oid :: bson_id
  mem_user_id :: string
  mem_agent_type :: string
  mem_conversation :: string
  mem_response :: string
  mem_timestamp :: datetime

record ('p, 'v) mongo =
  user_preferences :: "'p pref_doc list"
  trip_history :: "'v trip_doc list"
  agent_memory :: "memory_doc list"
  next_oid :: nat
  fault :: "string option"

definition empty_store :: "('p, 'v) mongo" where
  "empty_store = \<lparr>user_preferences = [], trip_history = [], agent_memory = [], next_oid = 0,
                  fault = None\<rparr>"

definition store_call :: "('p, 'v) mongo \<Rightarrow> 'a \<Rightarrow> string + 'a" where
  "store_call db r = (case fault db of Some e \<Rightarrow> Inl e | None \<Rightarrow> Inr r)"

fun replace_first :: "('a \<Rightarrow> bool) \<Rightarrow> ('a \<Rightarrow> 'a) \<Rightarrow> 'a list \<Rightarrow> 'a list" where
  "replace_first P f [] = []"
| "replace_first P f (x # xs) = (if P x then f x # xs else x # replace_first P f xs)"

definition sort_descending :: "('a \<Rightarrow> 'k::linorder) \<Rightarrow> 'a list \<Rightarrow> 'a list" where
  "sort_descending key xs = rev (sort_key key (rev xs))"

definition cursor_limit :: "int \<Rightarrow> 'a list \<Rightarrow> 'a list" where
  "cursor_limit n xs = (if n = 0 then xs else take (nat \<bar>n\<bar>) xs)"

definition replace_one_upsert_preferences ::
  "('p, 'v) mongo \<Rightarrow> string \<Rightarrow> 'p pref_doc \<Rightarrow> string + ('p, 'v) mongo" where
  "replace_one_upsert_preferences db uid document =
     store_call db
       (if list_ex (\<lambda>d. pref_user_id d = uid) (user_preferences db)
        then db\<lparr>user_preferences :=
                  replace_first (\<lambda>d. pref_user_id d = uid)
                    (\<lambda>d. document\<lparr>pref_oid := pref_oid d\<rparr>) (user_preferences db)\<rparr>
        else db\<lparr>user_preferences :=
                  user_preferences db @ [document\<lparr>pref_oid := ObjectId (next_oid db)\<rparr>],
                next_oid := Suc (next_oid db)\<rparr>)"

definition find_one_preferences ::
  "('p, 'v) mongo \<Rightarrow> string \<Rightarrow> string + 'p pref_doc option" where
  "find_one_preferences db uid =
     store_call db (List.find (\<lambda>d. pref_user_id d = uid) (user_preferences db))"

definition insert_one_trip :: "('p, 'v) mongo \<Rightarrow> 'v trip_doc \<Rightarrow> string + ('p, 'v) mongo" where
  "insert_one_trip db document =
     store_call db
       (db\<lparr>trip_history := trip_history db @ [document\<lparr>trip_oid := ObjectId (next_oid db)\<rparr>],
           next_oid := Suc (next_oid db)\<rparr>)"

definition insert_one_memory :: "('p, 'v) mongo \<Rightarrow> memory_doc \<Rightarrow> string + ('p, 'v) mongo" where
  "insert_one_memory db document =
     store_call db
       (db\<lparr>agent_memory := agent_memory db @ [document\<lparr>mem_oid := ObjectId (next_oid db)\<rparr>],
           next_oid := Suc (next_oid db)\<rparr>)"

definition find_trips :: "('p, 'v) mongo \<Rightarrow> string \<Rightarrow> int \<Rightarrow> string + 'v trip_doc list" where
  "find_trips db uid limit =
     store_call db
       (cursor_limit limit
          (sort_descending (\<lambda>d. dt_key (trip_created_at d))
             (filter (\<lambda>d. trip_user_id d = uid) (trip_history db))))"

definition find_memory ::
  "('p, 'v) mongo \<Rightarrow> string \<Rightarrow> string option \<Rightarrow> int \<Rightarrow> string + memory_doc list" where
  "find_memory db uid agent_type limit =
     store_call db
       (cursor_limit limit
          (sort_descending (\<lambda>d. dt_key (mem_timestamp d))
             (filter (\<lambda>d. mem_user_id d = uid \<and>
                           (case agent_type of None \<Rightarrow> True | Some a \<Rightarrow> mem_agent_type d = a))
                (agent_memory db))))"

text \<open>
  \<open>find({"destination": {"$regex": query, "$options": "i"}}).limit(n)\<close>: the regular
  expression engine is the store's; \<open>matches query v\<close> is its verdict on a stored value.
\<close>

definition find_destinations ::
  "(string \<Rightarrow> 'v option \<Rightarrow> bool) \<Rightarrow> ('p, 'v) mongo \<Rightarrow> string \<Rightarrow> int
     \<Rightarrow> string + 'v trip_doc list" where
  "find_destinations matches db query limit =
     store_call db
       (cursor_limit limit (filter (\<lambda>d. matches query (trip_destination d)) (trip_history db)))"

subsection \<open>TravelDatabase\<close>

text \<open>Every method wraps its body in \<open>try\<close>; the \<open>Inl\<close> branch is its \<open>except\<close>.\<close>

definition save_user_preferences ::
  "('p, 'v) mongo \<Rightarrow> string \<Rightarrow> 'p \<Rightarrow> datetime \<Rightarrow> datetime \<Rightarrow> bool \<times> ('p, 'v) mongo" where
  "save_user_preferences db user_id preferences now1 now2 =
     (let document = \<lparr>pref_oid = ObjectId 0, pref_user_id = user_id,
                       pref_preferences = preferences,
                       pref_created_at = bson_datetime now1,
                       pref_updated_at = bson_datetime now2\<rparr>
      in case replace_one_upsert_preferences db user_id document of
           Inr db' \<Rightarrow> (True, db')
         | Inl e \<Rightarrow> (False, db))"

definition get_user_preferences :: "('p, 'v) mongo \<Rightarrow> string \<Rightarrow> 'p option" where
  "get_user_preferences db user_id =
     (case find_one_preferences db user_id of
        Inr result \<Rightarrow> (case result of Some d \<Rightarrow> Some (pref_preferences d) | None \<Rightarrow> None)
      | Inl e \<Rightarrow> None)"

definition save_trip_history ::
  "('p, 'v) mongo \<Rightarrow> string \<Rightarrow> (string \<rightharpoonup> 'v) \<Rightarrow> datetime \<Rightarrow> datetime
     \<Rightarrow> bool \<times> ('p, 'v) mongo" where
  "save_trip_history db user_id trip_data now1 now2 =
     (let document = \<lparr>trip_oid = ObjectId 0, trip_user_id = user_id,
                       trip_id = user_id @ ''_'' @ strftime_trip now1,
                       trip_destination = trip_data ''destination'',
                       trip_start_date = trip_data ''start_date'',
                       trip_end_date = trip_data ''end_date'',
                       trip_preferences = trip_data ''preferences'',
                       trip_budget = trip_data ''budget'',
                       trip_itinerary = trip_data ''itinerary'',
                       trip_created_at = bson_datetime now2\<rparr>
      in case insert_one_trip db document of
           Inr db' \<Rightarrow> (True, db')
         | Inl e \<Rightarrow> (False, db))"

definition get_trip_history :: "('p, 'v) mongo \<Rightarrow> string \<Rightarrow> int \<Rightarrow> 'v trip_doc list" where
  "get_trip_history db user_id limit =
     (case find_trips db user_id limit of
        Inr trips \<Rightarrow> map (\<lambda>trip. trip\<lparr>trip_oid := str_id (trip_oid trip)\<rparr>) trips
      | Inl e \<Rightarrow> [])"

definition save_agent_memory ::
  "('p, 'v) mongo \<Rightarrow> string \<Rightarrow> string \<Rightarrow> string \<Rightarrow> string \<Rightarrow> datetime
     \<Rightarrow> bool \<times> ('p, 'v) mongo" where
  "save_agent_memory db user_id agent_type conversation response now =
     (let document = \<lparr>mem_oid = ObjectId 0, mem_user_id = user_id,
                       mem_agent_type = agent_type, mem_conversation = conversation,
                       mem_response = response, mem_timestamp = bson_datetime now\<rparr>
      in case insert_one_memory db document of
           Inr db' \<Rightarrow> (True, db')
         | Inl e \<Rightarrow> (False, db))"

definition get_agent_memory ::
  "('p, 'v) mongo \<Rightarrow> string \<Rightarrow> string option \<Rightarrow> int \<Rightarrow> memory_doc list" where
  "get_agent_memory db user_id agent_type limit =
     (let agent_type = (case agent_type of Some a \<Rightarrow> (if a = [] then None else Some a)
                                         | None \<Rightarrow> None)
      in case find_memory db user_id agent_type limit of
           Inr conversations \<Rightarrow> map (\<lambda>conv. conv\<lparr>mem_oid := str_id (mem_oid conv)\<rparr>) conversations
         | Inl e \<Rightarrow> [])"

datatype database_stats =
    Stats nat nat nat "string list" string
  | StatsError string string

text \<open>\<open>names\<close> is the store's answer to \<open>list_collection_names()\<close>.\<close>

definition get_database_stats :: "('p, 'v) mongo \<Rightarrow> string list \<Rightarrow> database_stats" where
  "get_database_stats db names =
     (case store_call db
             (Stats (length (user_preferences db)) (length (trip_history db))
                (length (agent_memory db)) names ''Connected'') of
        Inr stats \<Rightarrow> stats
      | Inl e \<Rightarrow> StatsError e ''Disconnected'')"

definition search_destinations ::
  "(string \<Rightarrow> 'v option \<Rightarrow> bool) \<Rightarrow> ('p, 'v) mongo \<Rightarrow> string \<Rightarrow> int \<Rightarrow> 'v trip_doc list" where
  "search_destinations matches db query limit =
     (case find_destinations matches db query limit of
        Inr results \<Rightarrow> map (\<lambda>result. result\<lparr>trip_oid := str_id (trip_oid result)\<rparr>) results
      | Inl e \<Rightarrow> [])"

section \<open>scheduler.py: chat\_with\_agent\<close>

text \<open>
  An agent answers through the hosted model, which is outside the program: \<open>respond\<close> is
  the content of its answer to a prompt, and \<open>inbox\<close> records the prompts it was run on.
\<close>

record agent =
  respond :: "string \<Rightarrow> string"
  inbox :: "string list"

definition run :: "agent \<Rightarrow> string \<Rightarrow> string \<times> agent" where
  "run a prompt = (respond a prompt, a\<lparr>inbox := inbox a @ [prompt]\<rparr>)"

record ('p, 'v) scheduler =
  self_user_id :: string
  itinerary_agent :: agent
  advisor_agent :: agent
  memory_agent :: agent
  self_db :: "('p, 'v) mongo option"

definition chat_with_agent ::
  "('p, 'v) scheduler \<Rightarrow> string \<Rightarrow> string \<Rightarrow> datetime \<Rightarrow> string \<times> ('p, 'v) scheduler" where
  "chat_with_agent self message agent_type now =
     (let (response, self) =
            (if agent_type = ''itinerary''
               then (let (r, a) = run (itinerary_agent self) message
                     in (r, self\<lparr>itinerary_agent := a\<rparr>))
             else if agent_type = ''memory''
               then (let (r, a) = run (memory_agent self) message
                     in (r, self\<lparr>memory_agent := a\<rparr>))
             else (let (r, a) = run (advisor_agent self) message
                   in (r, self\<lparr>advisor_agent := a\<rparr>)));
          self = (case self_db self of
                    Some d \<Rightarrow>
                      self\<lparr>self_db := Some (snd (save_agent_memory d (self_user_id self) agent_type
                                                message response now))\<rparr>
                  | None \<Rightarrow> self)
      in (response, self))"

section \<open>Sample inputs\<close>

definition sample_forecast :: "string forecast_data" where
  "sample_forecast =
     \<lparr>fc_city_name = ''Paris'', fc_city_country = ''FR'',
      fc_list =
        [\<lparr>dt_txt = ''2025-06-01 18:00:00'', fc_temp = ''21.4'', fc_description = ''clear sky''\<rparr>,
         \<lparr>dt_txt = ''2025-06-01 21:00:00'', fc_temp = ''18.0'', fc_description = ''few clouds''\<rparr>,
         \<lparr>dt_txt = ''2025-06-02 00:00:00'', fc_temp = ''16.2'', fc_description = ''light rain''\<rparr>]\<rparr>"


definition noon_early :: datetime where
  "noon_early = \<lparr>dt_year = 2025, dt_month = 6, dt_day = 1, dt_hour = 12, dt_minute = 0,
                 dt_second = 0, dt_microsecond = 100000\<rparr>"

definition noon_late :: datetime where
  "noon_late = \<lparr>dt_year = 2025, dt_month = 6, dt_day = 1, dt_hour = 12, dt_minute = 0,
                dt_second = 0, dt_microsecond = 900000\<rparr>"

definition noon_ms_early :: datetime where
  "noon_ms_early = \<lparr>dt_year = 2025, dt_month = 6, dt_day = 1, dt_hour = 12, dt_minute = 0,
                    dt_second = 0, dt_microsecond = 100100\<rparr>"

definition noon_ms_late :: datetime where
  "noon_ms_late = \<lparr>dt_year = 2025, dt_month = 6, dt_day = 1, dt_hour = 12, dt_minute = 0,
                   dt_second = 0, dt_microsecond = 100900\<rparr>"

definition evening :: datetime where
  "evening = \<lparr>dt_year = 2025, dt_month = 6, dt_day = 1, dt_hour = 19, dt_minute = 30,
              dt_second = 15, dt_microsecond = 250000\<rparr>"

definition paris_trip :: "string \<rightharpoonup> string" where
  "paris_trip = [''destination'' \<mapsto> ''Paris'', ''budget'' \<mapsto> ''moderate'']"

definition rome_trip :: "string \<rightharpoonup> string" where
  "rome_trip = [''destination'' \<mapsto> ''Rome'', ''budget'' \<mapsto> ''luxury'']"

definition fresh_store :: "(string, string) mongo" where
  "fresh_store = empty_store"

definition one_trip_store :: "(string, string) mongo" where
  "one_trip_store = snd (save_trip_history fresh_store ''default_user'' paris_trip noon_early noon_early)"

definition down_store :: "(string, string) mongo" where
  "down_store = fresh_store\<lparr>fault := Some ''ServerSelectionTimeoutError''\<rparr>"

definition silent_agent :: agent where
  "silent_agent = \<lparr>respond = (\<lambda>prompt. ''...''), inbox = []\<rparr>"

definition echo_agent :: agent where
  "echo_agent = \<lparr>respond = (\<lambda>prompt. ''advice on '' @ prompt), inbox = []\<rparr>"

definition sample_scheduler :: "(string, string) scheduler" where
  "sample_scheduler =
     \<lparr>self_user_id = ''default_user'', itinerary_agent = silent_agent,
      advisor_agent = echo_agent, memory_agent = silent_agent, self_db = None\<rparr>"

section \<open>Facts about strings\<close>

lemma lower_keywords:
  "lower ''hot'' = ''hot''" "lower ''sunny'' = ''sunny''" "lower ''cold'' = ''cold''"
  "lower ''snow'' = ''snow''" "lower ''rain'' = ''rain''" "lower ''storm'' = ''storm''"
  "lower ''high'' = ''high''" "lower ''wind'' = ''wind''"
  by (simp_all add: lower_def lower_char_def char_of_def)

lemma str_in_lower:
  assumes "str_in k s" and "lower k = k"
  shows "str_in k (lower s)"
proof -
  from assms(1) have "sublist (map lower_char k) (map lower_char s)"
    by (rule map_mono_sublist)
  with assms(2) show ?thesis
    by (simp add: lower_def)
qed

section \<open>The packing list\<close>

lemma cold_only_items:
  "set weather_gear_cold - set weather_gear_hot = {''warm jacket'', ''gloves'', ''thermal underwear''}"
  by (auto simp add: weather_gear_cold_def weather_gear_hot_def)

lemma cold_only_not_in_essentials_hot:
  "(set packing_essentials \<union> set weather_gear_hot)
     \<inter> {''warm jacket'', ''gloves'', ''thermal underwear''} = {}"
  by (simp add: packing_essentials_def weather_gear_hot_def)

lemma extras_not_in_tables:
  "(set packing_essentials \<union> set weather_gear_hot \<union> set weather_gear_cold \<union> set weather_gear_rainy)
     \<inter> {''laundry detergent'', ''extra underwear'', ''backup electronics''} = {}"
  by (simp add: packing_essentials_def weather_gear_hot_def weather_gear_cold_def
      weather_gear_rainy_def)

lemma cold_only_not_in_extras:
  "{''laundry detergent'', ''extra underwear'', ''backup electronics''}
     \<inter> {''warm jacket'', ''gloves'', ''thermal underwear''} = {}"
  by simp

lemma disjoint_from_cover:
  "A \<subseteq> B \<union> C \<Longrightarrow> B \<inter> D = {} \<Longrightarrow> C \<inter> D = {} \<Longrightarrow> A \<inter> D = {}"
  by blast

lemma disjoint_subset: "A \<subseteq> B \<Longrightarrow> B \<inter> D = {} \<Longrightarrow> A \<inter> D = {}"
  by blast

lemma hot_bucket:
  assumes "str_in ''hot'' (lower w) \<or> str_in ''sunny'' (lower w)"
  shows "get_packing_list dest w d = packing_essentials @ weather_gear_hot
        @ (if d > 7 then [''laundry detergent'', ''extra underwear'', ''backup electronics''] else [])"
  using assms by (simp add: get_packing_list_def Let_def)

lemma hot_keyword_literal:
  assumes "str_in ''hot'' w \<or> str_in ''sunny'' w \<or> str_in ''hot'' (lower w) \<or> str_in ''sunny'' (lower w)"
  shows "str_in ''hot'' (lower w) \<or> str_in ''sunny'' (lower w)"
  using assms str_in_lower lower_keywords(1,2) by blast

lemma hot_bucket_prefix:
  assumes "str_in ''hot'' (lower w) \<or> str_in ''sunny'' (lower w)"
  shows "prefix (packing_essentials @ weather_gear_hot) (get_packing_list dest w d)"
  unfolding hot_bucket[OF assms] by simp

lemma hot_bucket_superset:
  assumes "str_in ''hot'' (lower w) \<or> str_in ''sunny'' (lower w)"
  shows "set packing_essentials \<union> set weather_gear_hot \<subseteq> set (get_packing_list dest w d)"
  unfolding hot_bucket[OF assms] by auto

lemma hot_bucket_no_cold:
  assumes "str_in ''hot'' (lower w) \<or> str_in ''sunny'' (lower w)"
  shows "set (get_packing_list dest w d) \<inter> {''warm jacket'', ''gloves'', ''thermal underwear''} = {}"
proof -
  have "set (get_packing_list dest w d) \<subseteq> (set packing_essentials \<union> set weather_gear_hot)
            \<union> {''laundry detergent'', ''extra underwear'', ''backup electronics''}"
    unfolding hot_bucket[OF assms] by auto
  then show ?thesis
    by (rule disjoint_from_cover) (rule cold_only_not_in_essentials_hot, rule cold_only_not_in_extras)
qed

text \<open>
  C2. The weather bucket is chosen by the first test that succeeds, hot before cold before
  rainy, on the lower-cased description, and at most one bucket is added: the list is the
  essentials, then the hot gear if \<open>hot\<close> or \<open>sunny\<close> occurs, else the cold gear if
  \<open>cold\<close> or \<open>snow\<close> occurs, else the rainy gear if \<open>rain\<close> occurs, else nothing, then
  the duration extras. A description with both \<open>hot\<close> and \<open>cold\<close> (as written or in any
  case) gives essentials followed by the hot gear and none of the items that only the
  cold gear has; a description with \<open>hot\<close> or \<open>sunny\<close> gives a list that starts with
  essentials followed by the hot gear and so contains both.
\<close>

theorem packing_list_first_match:
  "((str_in ''hot'' (lower w) \<or> str_in ''sunny'' (lower w)) \<longrightarrow>
      get_packing_list dest w d = packing_essentials @ weather_gear_hot
        @ (if d > 7 then [''laundry detergent'', ''extra underwear'', ''backup electronics''] else []))
   \<and> (\<not> (str_in ''hot'' (lower w) \<or> str_in ''sunny'' (lower w)) \<and>
        (str_in ''cold'' (lower w) \<or> str_in ''snow'' (lower w)) \<longrightarrow>
      get_packing_list dest w d = packing_essentials @ weather_gear_cold
        @ (if d > 7 then [''laundry detergent'', ''extra underwear'', ''backup electronics''] else []))
   \<and> (\<not> (str_in ''hot'' (lower w) \<or> str_in ''sunny'' (lower w)) \<and>
        \<not> (str_in ''cold'' (lower w) \<or> str_in ''snow'' (lower w)) \<and> str_in ''rain'' (lower w) \<longrightarrow>
      get_packing_list dest w d = packing_essentials @ weather_gear_rainy
        @ (if d > 7 then [''laundry detergent'', ''extra underwear'', ''backup electronics''] else []))
   \<and> (\<not> (str_in ''hot'' (lower w) \<or> str_in ''sunny'' (lower w)) \<and>
        \<not> (str_in ''cold'' (lower w) \<or> str_in ''snow'' (lower w)) \<and> \<not> str_in ''rain'' (lower w) \<longrightarrow>
      get_packing_list dest w d = packing_essentials
        @ (if d > 7 then [''laundry detergent'', ''extra underwear'', ''backup electronics''] else []))
   \<and> ((str_in ''hot'' w \<or> str_in ''hot'' (lower w)) \<and> (str_in ''cold'' w \<or> str_in ''cold'' (lower w)) \<longrightarrow>
      prefix (packing_essentials @ weather_gear_hot) (get_packing_list dest w d)
      \<and> set (get_packing_list dest w d) \<inter> {''warm jacket'', ''gloves'', ''thermal underwear''} = {})
   \<and> ((str_in ''hot'' w \<or> str_in ''sunny'' w \<or> str_in ''hot'' (lower w) \<or> str_in ''sunny'' (lower w)) \<longrightarrow>
      prefix (packing_essentials @ weather_gear_hot) (get_packing_list dest w d)
      \<and> set packing_essentials \<union> set weather_gear_hot \<subseteq> set (get_packing_list dest w d))"
proof (intro conjI impI)
  assume "str_in ''hot'' (lower w) \<or> str_in ''sunny'' (lower w)"
  then show "get_packing_list dest w d = packing_essentials @ weather_gear_hot
        @ (if d > 7 then [''laundry detergent'', ''extra underwear'', ''backup electronics''] else [])"
    by (rule hot_bucket)
next
  assume "\<not> (str_in ''hot'' (lower w) \<or> str_in ''sunny'' (lower w)) \<and>
        (str_in ''cold'' (lower w) \<or> str_in ''snow'' (lower w))"
  then show "get_packing_list dest w d = packing_essentials @ weather_gear_cold
        @ (if d > 7 then [''laundry detergent'', ''extra underwear'', ''backup electronics''] else [])"
    by (simp add: get_packing_list_def Let_def)
next
  assume "\<not> (str_in ''hot'' (lower w) \<or> str_in ''sunny'' (lower w)) \<and>
        \<not> (str_in ''cold'' (lower w) \<or> str_in ''snow'' (lower w)) \<and> str_in ''rain'' (lower w)"
  then show "get_packing_list dest w d = packing_essentials @ weather_gear_rainy
        @ (if d > 7 then [''laundry detergent'', ''extra underwear'', ''backup electronics''] else [])"
    by (simp add: get_packing_list_def Let_def)
next
  assume "\<not> (str_in ''hot'' (lower w) \<or> str_in ''sunny'' (lower w)) \<and>
        \<not> (str_in ''cold'' (lower w) \<or> str_in ''snow'' (lower w)) \<and> \<not> str_in ''rain'' (lower w)"
  then show "get_packing_list dest w d = packing_essentials
        @ (if d > 7 then [''laundry detergent'', ''extra underwear'', ''backup electronics''] else [])"
    by (simp add: get_packing_list_def Let_def)
next
  assume "(str_in ''hot'' w \<or> str_in ''hot'' (lower w)) \<and> (str_in ''cold'' w \<or> str_in ''cold'' (lower w))"
  then have h: "str_in ''hot'' (lower w) \<or> str_in ''sunny'' (lower w)"
    using hot_keyword_literal by blast
  show "prefix (packing_essentials @ weather_gear_hot) (get_packing_list dest w d)"
    using h by (rule hot_bucket_prefix)
  show "set (get_packing_list dest w d) \<inter> {''warm jacket'', ''gloves'', ''thermal underwear''} = {}"
    using h by (rule hot_bucket_no_cold)
next
  assume "str_in ''hot'' w \<or> str_in ''sunny'' w \<or> str_in ''hot'' (lower w) \<or> str_in ''sunny'' (lower w)"
  then have h: "str_in ''hot'' (lower w) \<or> str_in ''sunny'' (lower w)"
    by (rule hot_keyword_literal)
  show "prefix (packing_essentials @ weather_gear_hot) (get_packing_list dest w d)"
    using h by (rule hot_bucket_prefix)
  show "set packing_essentials \<union> set weather_gear_hot \<subseteq> set (get_packing_list dest w d)"
    using h by (rule hot_bucket_superset)
qed

theorem packing_list_first_match_witness:
  "str_in ''hot'' (lower ''Hot days, cold nights'')
   \<and> str_in ''cold'' (lower ''Hot days, cold nights'')
   \<and> get_packing_list ''Cairo'' ''Hot days, cold nights'' 10
       = [''passport'', ''phone charger'', ''medications'', ''comfortable shoes'',
          ''sunscreen'', ''hat'', ''light clothing'', ''water bottle'',
          ''laundry detergent'', ''extra underwear'', ''backup electronics'']"
proof -
  have h: "str_in ''hot'' (lower ''Hot days, cold nights'')"
    by code_simp
  have c: "str_in ''cold'' (lower ''Hot days, cold nights'')"
    by code_simp
  have "get_packing_list ''Cairo'' ''Hot days, cold nights'' 10
          = packing_essentials @ weather_gear_hot
            @ (if (10::int) > 7
               then [''laundry detergent'', ''extra underwear'', ''backup electronics''] else [])"
    using packing_list_first_match[where w = "''Hot days, cold nights''" and dest = "''Cairo''"
        and d = 10, THEN conjunct1] h by blast
  then have "get_packing_list ''Cairo'' ''Hot days, cold nights'' 10
       = [''passport'', ''phone charger'', ''medications'', ''comfortable shoes'',
          ''sunscreen'', ''hat'', ''light clothing'', ''water bottle'',
          ''laundry detergent'', ''extra underwear'', ''backup electronics'']"
    by (simp add: packing_essentials_def weather_gear_hot_def)
  with h c show ?thesis
    by (intro conjI)
qed

text \<open>
  C3. With a duration above 7 the list is the list for duration 7 followed by exactly the
  three extras (laundry detergent, extra underwear, backup electronics), and the list for
  duration 7 holds none of the three.
\<close>

theorem packing_list_duration_extras:
  "(7 < d \<longrightarrow> get_packing_list dest w d
        = get_packing_list dest w 7 @ [''laundry detergent'', ''extra underwear'', ''backup electronics''])
   \<and> set (get_packing_list dest w 7)
        \<inter> {''laundry detergent'', ''extra underwear'', ''backup electronics''} = {}"
proof (intro conjI impI)
  assume "7 < d"
  then show "get_packing_list dest w d
        = get_packing_list dest w 7 @ [''laundry detergent'', ''extra underwear'', ''backup electronics'']"
    by (simp add: get_packing_list_def Let_def)
next
  have "set (get_packing_list dest w 7) \<subseteq>
     set packing_essentials \<union> set weather_gear_hot \<union> set weather_gear_cold \<union> set weather_gear_rainy"
    by (auto simp add: get_packing_list_def Let_def)
  then show "set (get_packing_list dest w 7)
        \<inter> {''laundry detergent'', ''extra underwear'', ''backup electronics''} = {}"
    by (rule disjoint_subset) (rule extras_not_in_tables)
qed

theorem packing_list_duration_extras_witness:
  "(7::int) < 8
   \<and> get_packing_list ''Bergen'' ''Light rain'' 8
       = [''passport'', ''phone charger'', ''medications'', ''comfortable shoes'',
          ''umbrella'', ''waterproof jacket'', ''quick-dry clothes'',
          ''laundry detergent'', ''extra underwear'', ''backup electronics'']"
proof -
  have week: "get_packing_list ''Bergen'' ''Light rain'' 7
       = [''passport'', ''phone charger'', ''medications'', ''comfortable shoes'',
          ''umbrella'', ''waterproof jacket'', ''quick-dry clothes'']"
    by code_simp
  have "get_packing_list ''Bergen'' ''Light rain'' 8
       = get_packing_list ''Bergen'' ''Light rain'' 7
           @ [''laundry detergent'', ''extra underwear'', ''backup electronics'']"
    using packing_list_duration_extras[where d = 8 and dest = "''Bergen''" and w = "''Light rain''",
        THEN conjunct1] by simp
  then show ?thesis
    unfolding week by simp
qed

text \<open>
  C10. Whatever the description and the duration, the list starts with the four essentials
  passport, phone charger, medications, comfortable shoes, in this order; when no weather
  keyword occurs and the duration is at most 7 the list is exactly these four.
\<close>

theorem packing_list_essentials_prefix:
  "prefix [''passport'', ''phone charger'', ''medications'', ''comfortable shoes'']
      (get_packing_list dest w d)
   \<and> (\<not> str_in ''hot'' (lower w) \<and> \<not> str_in ''sunny'' (lower w) \<and> \<not> str_in ''cold'' (lower w)
        \<and> \<not> str_in ''snow'' (lower w) \<and> \<not> str_in ''rain'' (lower w) \<and> d \<le> 7 \<longrightarrow>
      get_packing_list dest w d
        = [''passport'', ''phone charger'', ''medications'', ''comfortable shoes''])"
  by (simp add: get_packing_list_def Let_def packing_essentials_def)

theorem packing_list_essentials_prefix_witness:
  "get_packing_list ''Lisbon'' ''Mild and cloudy'' 3
     = [''passport'', ''phone charger'', ''medications'', ''comfortable shoes'']"
proof -
  have none: "\<not> str_in ''hot'' (lower ''Mild and cloudy'') \<and> \<not> str_in ''sunny'' (lower ''Mild and cloudy'')
      \<and> \<not> str_in ''cold'' (lower ''Mild and cloudy'') \<and> \<not> str_in ''snow'' (lower ''Mild and cloudy'')
      \<and> \<not> str_in ''rain'' (lower ''Mild and cloudy'') \<and> (3::int) \<le> 7"
    by code_simp
  show ?thesis
    using packing_list_essentials_prefix[where w = "''Mild and cloudy''" and d = 3
        and dest = "''Lisbon''", THEN conjunct2] none by blast
qed

section \<open>The forecast\<close>

lemma render_group_pair:
  "render_group fmt (d, xs) = date_heading d @ concat (map (sample_line fmt) xs)"
  by (simp add: render_group_def)

lemma forecast_loop_append:
  "forecast_loop fmt acc cur items = acc @ forecast_loop fmt [] cur items"
proof (induction items arbitrary: acc cur)
  case Nil
  show ?case by simp
next
  case (Cons item items)
  show ?case
    using Cons.IH[of "acc @ date_heading (forecast_date item) @ sample_line fmt item"]
      Cons.IH[of "date_heading (forecast_date item) @ sample_line fmt item"]
      Cons.IH[of "acc @ sample_line fmt item"]
      Cons.IH[of "sample_line fmt item"]
    by simp
qed

lemma forecast_loop_same_date:
  assumes "sorted (map forecast_date items)" and "\<forall>i \<in> set items. d \<le> forecast_date i"
  shows "forecast_loop fmt [] (Some d) items
           = concat (map (sample_line fmt) (filter (\<lambda>i. forecast_date i = d) items))
             @ concat (map (render_group fmt) (date_groups (filter (\<lambda>i. forecast_date i \<noteq> d) items)))"
  using assms
proof (induction items arbitrary: d)
  case Nil
  show ?case by simp
next
  case (Cons item items)
  have srt: "sorted (map forecast_date items)"
    and ge: "\<forall>i \<in> set items. forecast_date item \<le> forecast_date i"
    using Cons.prems(1) by auto
  show ?case
  proof (cases "forecast_date item = d")
    case True
    have "forecast_loop fmt [] (Some d) (item # items)
            = sample_line fmt item @ forecast_loop fmt [] (Some d) items"
      using True forecast_loop_append[of fmt "sample_line fmt item"] by simp
    also have "forecast_loop fmt [] (Some d) items
            = concat (map (sample_line fmt) (filter (\<lambda>i. forecast_date i = d) items))
             @ concat (map (render_group fmt) (date_groups (filter (\<lambda>i. forecast_date i \<noteq> d) items)))"
      using Cons.IH[OF srt] Cons.prems(2) by simp
    finally show ?thesis using True by simp
  next
    case False
    let ?e = "forecast_date item"
    have lt: "d < ?e" using False Cons.prems(2) by auto
    have none: "filter (\<lambda>i. forecast_date i = d) items = []"
      using ge lt by (auto simp add: filter_empty_conv)
    have all: "filter (\<lambda>i. forecast_date i \<noteq> d) items = items"
      using ge lt by (auto simp add: filter_id_conv)
    have "forecast_loop fmt [] (Some d) (item # items)
            = date_heading ?e @ sample_line fmt item @ forecast_loop fmt [] (Some ?e) items"
      using False forecast_loop_append[of fmt "date_heading ?e @ sample_line fmt item"] by simp
    also have "forecast_loop fmt [] (Some ?e) items
            = concat (map (sample_line fmt) (filter (\<lambda>i. forecast_date i = ?e) items))
             @ concat (map (render_group fmt) (date_groups (filter (\<lambda>i. forecast_date i \<noteq> ?e) items)))"
      using Cons.IH[OF srt ge] .
    finally show ?thesis using False none all by (simp add: render_group_pair)
  qed
qed

lemma forecast_loop_groups:
  assumes "sorted (map forecast_date items)"
  shows "forecast_loop fmt acc None items = acc @ concat (map (render_group fmt) (date_groups items))"
proof (cases items)
  case Nil
  then show ?thesis by simp
next
  case (Cons item rest)
  let ?e = "forecast_date item"
  have srt: "sorted (map forecast_date rest)" and ge: "\<forall>i \<in> set rest. ?e \<le> forecast_date i"
    using assms Cons by auto
  have "forecast_loop fmt acc None items
          = acc @ date_heading ?e @ sample_line fmt item @ forecast_loop fmt [] (Some ?e) rest"
    using Cons forecast_loop_append[of fmt "acc @ date_heading ?e @ sample_line fmt item"] by simp
  then show ?thesis
    using forecast_loop_same_date[OF srt ge, of fmt] Cons by (simp add: render_group_pair)
qed


lemma date_groups_dates:
  "set (map fst (date_groups items)) = forecast_date ` set items"
proof (induction items rule: date_groups.induct)
  case 1
  show ?case by simp
next
  case (2 item items)
  then show ?case by auto
qed

lemma date_groups_distinct: "distinct (map fst (date_groups items))"
proof (induction items rule: date_groups.induct)
  case 1
  show ?case by simp
next
  case (2 item items)
  then show ?case by (auto simp add: date_groups_dates simp flip: set_map)
qed

lemma date_groups_members:
  "g \<in> set (date_groups items) \<Longrightarrow> snd g = filter (\<lambda>i. forecast_date i = fst g) items"
proof (induction items rule: date_groups.induct)
  case 1
  then show ?case by simp
next
  case (2 item items)
  show ?case
  proof (cases "g = (forecast_date item, item # filter (\<lambda>i. forecast_date i = forecast_date item) items)")
    case True
    then show ?thesis by simp
  next
    case False
    with "2.prems" have g: "g \<in> set (date_groups (filter (\<lambda>i. forecast_date i \<noteq> forecast_date item) items))"
      by simp
    then have "fst g \<in> forecast_date ` set (filter (\<lambda>i. forecast_date i \<noteq> forecast_date item) items)"
      using date_groups_dates[of "filter (\<lambda>i. forecast_date i \<noteq> forecast_date item) items"] by force
    then have ne: "fst g \<noteq> forecast_date item" by auto
    have "snd g = filter (\<lambda>i. forecast_date i = fst g) (filter (\<lambda>i. forecast_date i \<noteq> forecast_date item) items)"
      using "2.IH"[OF g] .
    also have "\<dots> = filter (\<lambda>i. forecast_date i = fst g) items"
      using ne by (auto intro: filter_cong)
    finally show ?thesis using ne by auto
  qed
qed

lemma date_groups_subseq:
  "subseq (map fst (date_groups items)) (map forecast_date items)"
proof (induction items rule: date_groups.induct)
  case 1
  show ?case by simp
next
  case (2 item items)
  let ?rest = "filter (\<lambda>i. forecast_date i \<noteq> forecast_date item) items"
  have "subseq (map forecast_date ?rest) (map forecast_date items)"
    by (intro subseq_map subseq_filter_left)
  with "2.IH" have "subseq (map fst (date_groups ?rest)) (map forecast_date items)"
    by (rule subseq_order.trans)
  then show ?case by simp
qed

lemma forecast_grouping_groups:
  assumes "sorted (map forecast_date (fc_list data))"
  shows "get_weather_forecast fmt (Inr data)
           = forecast_title data @ concat (map (render_group fmt) (date_groups (fc_list data)))"
  using forecast_loop_groups[OF assms] by (simp add: get_weather_forecast_def)

lemma forecast_date_literal:
  "forecast_date = (\<lambda>i. take 10 (dt_txt i))"
  by (rule ext) (simp add: forecast_date_def)

lemma render_group_literal:
  "render_group fmt =
     (\<lambda>g. [CHR 0x0A, CHR 0xF0, CHR 0x9F, CHR 0x93, CHR 0x85] @ '' '' @ fst g @ '':'' @ [CHR 0x0A]
          @ concat (map (\<lambda>i. ''  '' @ take 5 (drop 11 (dt_txt i)) @ '': '' @ fmt (fc_temp i)
                               @ [CHR 0xC2, CHR 0xB0] @ ''C, '' @ fc_description i @ [CHR 0x0A])
                      (snd g)))"
proof -
  have line: "sample_line fmt =
      (\<lambda>i. ''  '' @ take 5 (drop 11 (dt_txt i)) @ '': '' @ fmt (fc_temp i)
            @ [CHR 0xC2, CHR 0xB0] @ ''C, '' @ fc_description i @ [CHR 0x0A])"
    by (rule ext) (simp add: sample_line_def forecast_time_def degree_sign_def newline_def)
  show ?thesis
    unfolding line[symmetric]
    by (rule ext) (simp add: render_group_def date_heading_def newline_def calendar_sign_def)
qed

lemma forecast_title_literal:
  "forecast_title data =
     ''Weather Forecast for '' @ fc_city_name data @ '', '' @ fc_city_country data @ '':''
       @ [CHR 0x0A, CHR 0x0A]"
  by (simp add: forecast_title_def newline_def)

text \<open>
  C4. When the date stamps of the samples (the first ten characters of each \<open>dt_txt\<close>) are
  non-decreasing, the rendered forecast is the title followed, for each group of
  \<open>date_groups\<close>, by the heading of its date (a line break, the calendar sign, a blank,
  the date, a colon, a line break) and then the lines of its samples (two blanks, the
  time, a colon, the temperature, the degree sign and \<open>C\<close>, the condition). The groups
  have pairwise distinct dates, their dates are exactly the dates of the samples, they come
  in the order of the input, and each group holds all the samples of its date: one heading
  per distinct date, each sample line beneath the heading of its own date.
\<close>

theorem forecast_grouping:
  assumes "sorted (map (\<lambda>i. take 10 (dt_txt i)) (fc_list data))"
  shows "get_weather_forecast fmt (Inr data)
           = ''Weather Forecast for '' @ fc_city_name data @ '', '' @ fc_city_country data @ '':''
             @ [CHR 0x0A, CHR 0x0A]
             @ concat (map
                 (\<lambda>g. [CHR 0x0A, CHR 0xF0, CHR 0x9F, CHR 0x93, CHR 0x85] @ '' '' @ fst g @ '':''
                      @ [CHR 0x0A]
                      @ concat (map (\<lambda>i. ''  '' @ take 5 (drop 11 (dt_txt i)) @ '': ''
                                           @ fmt (fc_temp i) @ [CHR 0xC2, CHR 0xB0] @ ''C, ''
                                           @ fc_description i @ [CHR 0x0A])
                                  (snd g)))
                 (date_groups (fc_list data)))
     \<and> distinct (map fst (date_groups (fc_list data)))
     \<and> set (map fst (date_groups (fc_list data))) = (\<lambda>i. take 10 (dt_txt i)) ` set (fc_list data)
     \<and> subseq (map fst (date_groups (fc_list data))) (map (\<lambda>i. take 10 (dt_txt i)) (fc_list data))
     \<and> (\<forall>g \<in> set (date_groups (fc_list data)).
           snd g = filter (\<lambda>i. take 10 (dt_txt i) = fst g) (fc_list data))"
proof (intro conjI ballI)
  have srt: "sorted (map forecast_date (fc_list data))"
    unfolding forecast_date_literal by (rule assms)
  show "get_weather_forecast fmt (Inr data)
           = ''Weather Forecast for '' @ fc_city_name data @ '', '' @ fc_city_country data @ '':''
             @ [CHR 0x0A, CHR 0x0A]
             @ concat (map
                 (\<lambda>g. [CHR 0x0A, CHR 0xF0, CHR 0x9F, CHR 0x93, CHR 0x85] @ '' '' @ fst g @ '':''
                      @ [CHR 0x0A]
                      @ concat (map (\<lambda>i. ''  '' @ take 5 (drop 11 (dt_txt i)) @ '': ''
                                           @ fmt (fc_temp i) @ [CHR 0xC2, CHR 0xB0] @ ''C, ''
                                           @ fc_description i @ [CHR 0x0A])
                                  (snd g)))
                 (date_groups (fc_list data)))"
    using forecast_grouping_groups[OF srt, of fmt]
    unfolding render_group_literal forecast_title_literal by simp
  show "distinct (map fst (date_groups (fc_list data)))"
    by (rule date_groups_distinct)
  show "set (map fst (date_groups (fc_list data))) = (\<lambda>i. take 10 (dt_txt i)) ` set (fc_list data)"
    using date_groups_dates[of "fc_list data"] unfolding forecast_date_literal .
  show "subseq (map fst (date_groups (fc_list data))) (map (\<lambda>i. take 10 (dt_txt i)) (fc_list data))"
    using date_groups_subseq[of "fc_list data"] unfolding forecast_date_literal .
  show "snd g = filter (\<lambda>i. take 10 (dt_txt i) = fst g) (fc_list data)"
    if "g \<in> set (date_groups (fc_list data))" for g
    using date_groups_members[OF that] unfolding forecast_date_literal .
qed

theorem forecast_grouping_witness:
  "sorted [''2025-06-01'', ''2025-06-01'', ''2025-06-02'']
   \<and> get_weather_forecast id (Inr sample_forecast)
       = ''Weather Forecast for Paris, FR:'' @ [CHR 0x0A, CHR 0x0A]
         @ [CHR 0x0A, CHR 0xF0, CHR 0x9F, CHR 0x93, CHR 0x85] @ '' 2025-06-01:'' @ [CHR 0x0A]
         @ ''  18:00: 21.4'' @ [CHR 0xC2, CHR 0xB0] @ ''C, clear sky'' @ [CHR 0x0A]
         @ ''  21:00: 18.0'' @ [CHR 0xC2, CHR 0xB0] @ ''C, few clouds'' @ [CHR 0x0A]
         @ [CHR 0x0A, CHR 0xF0, CHR 0x9F, CHR 0x93, CHR 0x85] @ '' 2025-06-02:'' @ [CHR 0x0A]
         @ ''  00:00: 16.2'' @ [CHR 0xC2, CHR 0xB0] @ ''C, light rain'' @ [CHR 0x0A]"
proof -
  have dates: "map (\<lambda>i. take 10 (dt_txt i)) (fc_list sample_forecast)
      = [''2025-06-01'', ''2025-06-01'', ''2025-06-02'']"
    by (simp add: sample_forecast_def)
  have s: "sorted [''2025-06-01'', ''2025-06-01'', ''2025-06-02'']"
    by code_simp
  have s': "sorted (map (\<lambda>i. take 10 (dt_txt i)) (fc_list sample_forecast))"
    unfolding dates by (rule s)
  have g: "date_groups (fc_list sample_forecast) =
   [(''2025-06-01'',
     [\<lparr>dt_txt = ''2025-06-01 18:00:00'', fc_temp = ''21.4'', fc_description = ''clear sky''\<rparr>,
      \<lparr>dt_txt = ''2025-06-01 21:00:00'', fc_temp = ''18.0'', fc_description = ''few clouds''\<rparr>]),
    (''2025-06-02'',
     [\<lparr>dt_txt = ''2025-06-02 00:00:00'', fc_temp = ''16.2'', fc_description = ''light rain''\<rparr>])]"
    by (simp add: sample_forecast_def forecast_date_def)
  have n: "fc_city_name sample_forecast = ''Paris''" "fc_city_country sample_forecast = ''FR''"
    by (simp_all add: sample_forecast_def)
  from forecast_grouping[OF s', of id, THEN conjunct1] s show ?thesis
    unfolding g n by simp
qed

section \<open>The alerts\<close>

lemma alerts_distinct:
  "rain_alert \<noteq> snow_alert" "rain_alert \<noteq> wind_alert" "snow_alert \<noteq> wind_alert"
  by (simp_all add: rain_alert_def snow_alert_def wind_alert_def warning_sign_def
      snowflake_sign_def wind_sign_def)

lemma collect_alerts_members:
  "(rain_alert \<in> set (collect_alerts info)
      \<longleftrightarrow> str_in ''rain'' (lower info) \<or> str_in ''storm'' (lower info))"
  "(snow_alert \<in> set (collect_alerts info) \<longleftrightarrow> str_in ''snow'' (lower info))"
  "(wind_alert \<in> set (collect_alerts info)
      \<longleftrightarrow> str_in ''wind'' info \<and> str_in ''high'' (lower info))"
  using alerts_distinct by (auto simp add: collect_alerts_def Let_def)

lemma error_text_has_Error: "str_in ''Error'' (''Error getting weather data: '' @ e)"
proof -
  have "''Error getting weather data: '' @ e = [] @ ''Error'' @ ('' getting weather data: '' @ e)"
    by simp
  then show ?thesis unfolding sublist_def by blast
qed

lemma failed_lookup_unchanged:
  "get_weather_alerts fmt title city (Inl e) = ''Error getting weather data: '' @ e"
proof -
  have "get_current_weather fmt title (Inl e) = ''Error getting weather data: '' @ e"
    by (simp add: get_current_weather_def)
  with error_text_has_Error[of e] show ?thesis
    by (simp add: get_weather_alerts_def)
qed


section \<open>The document store\<close>

lemma insort_key_largest:
  "\<forall>x \<in> set xs. key x < key y \<Longrightarrow> insort_key key y xs = xs @ [y]"
  by (induction xs) auto

lemma sort_descending_newest:
  assumes "\<forall>x \<in> set xs. key x < key y"
  shows "sort_descending key (xs @ [y]) = y # sort_descending key xs"
proof -
  have "\<forall>x \<in> set (sort_key key (rev xs)). key x < key y"
    using assms by simp
  then have "insort_key key y (sort_key key (rev xs)) = sort_key key (rev xs) @ [y]"
    by (rule insort_key_largest)
  then show ?thesis
    by (simp add: sort_descending_def sort_key_def)
qed

lemma sort_descending_sorted:
  "sorted_wrt (\<lambda>a b. key b \<le> key a) (sort_descending key xs)"
proof -
  have "sorted (map key (sort_key key (rev xs)))"
    by simp
  then have "sorted_wrt (\<lambda>a b. key a \<le> key b) (sort_key key (rev xs))"
    by (simp add: sorted_map)
  then show ?thesis
    by (simp add: sort_descending_def sorted_wrt_rev)
qed

lemma cursor_limit_sorted:
  "sorted_wrt R xs \<Longrightarrow> sorted_wrt R (cursor_limit n xs)"
  by (simp add: cursor_limit_def sorted_wrt_take)

lemma get_trip_history_sorted:
  "sorted_wrt (\<lambda>a b. dt_key (trip_created_at b) \<le> dt_key (trip_created_at a))
     (get_trip_history db uid limit)"
proof (cases "fault db")
  case None
  let ?xs = "cursor_limit limit (sort_descending (\<lambda>d. dt_key (trip_created_at d))
             (filter (\<lambda>d. trip_user_id d = uid) (trip_history db)))"
  have "sorted_wrt (\<lambda>a b. dt_key (trip_created_at b) \<le> dt_key (trip_created_at a)) ?xs"
    by (intro cursor_limit_sorted sort_descending_sorted)
  then show ?thesis
    using None by (simp add: get_trip_history_def find_trips_def store_call_def sorted_wrt_map)
next
  case (Some e)
  then show ?thesis
    by (simp add: get_trip_history_def find_trips_def store_call_def)
qed

text \<open>
  C1, as the code has it. When the store answers and the new record's creation stamp, cut
  to milliseconds as the store keeps it, is later than the stamps of the records already
  stored for the user, \<open>save_trip_history\<close> succeeds and \<open>get_trip_history\<close> with
  limit 1 on the resulting store returns exactly the record just written (its \<open>_id\<close> as
  text) as the only element. For every store, user and limit the sequence returned by
  \<open>get_trip_history\<close> is ordered by \<open>created_at\<close>, newest first.
\<close>

theorem append_trip_then_list:
  assumes "fault db = None"
    and "\<forall>t \<in> set (trip_history db).
           trip_user_id t = uid \<longrightarrow> dt_key (trip_created_at t) < dt_key (bson_datetime created)"
  shows "fst (save_trip_history db uid trip_data stamp created)
     \<and> get_trip_history (snd (save_trip_history db uid trip_data stamp created)) uid 1
         = [\<lparr>trip_oid = IdText (next_oid db), trip_user_id = uid,
             trip_id = uid @ ''_'' @ strftime_trip stamp,
             trip_destination = trip_data ''destination'',
             trip_start_date = trip_data ''start_date'',
             trip_end_date = trip_data ''end_date'',
             trip_preferences = trip_data ''preferences'',
             trip_budget = trip_data ''budget'',
             trip_itinerary = trip_data ''itinerary'',
             trip_created_at = bson_datetime created\<rparr>]
     \<and> sorted_wrt (\<lambda>a b. dt_key (trip_created_at b) \<le> dt_key (trip_created_at a))
          (get_trip_history db' uid' limit)"
proof -
  let ?doc = "\<lparr>trip_oid = ObjectId (next_oid db), trip_user_id = uid,
             trip_id = uid @ ''_'' @ strftime_trip stamp,
             trip_destination = trip_data ''destination'',
             trip_start_date = trip_data ''start_date'',
             trip_end_date = trip_data ''end_date'',
             trip_preferences = trip_data ''preferences'',
             trip_budget = trip_data ''budget'',
             trip_itinerary = trip_data ''itinerary'',
             trip_created_at = bson_datetime created\<rparr>"
  let ?old = "filter (\<lambda>d. trip_user_id d = uid) (trip_history db)"
  have saved: "save_trip_history db uid trip_data stamp created
        = (True, db\<lparr>trip_history := trip_history db @ [?doc], next_oid := Suc (next_oid db)\<rparr>)"
    using assms(1) by (simp add: save_trip_history_def insert_one_trip_def store_call_def)
  have older: "\<forall>x \<in> set ?old. dt_key (trip_created_at x) < dt_key (trip_created_at ?doc)"
    using assms(2) by simp
  have "sort_descending (\<lambda>d. dt_key (trip_created_at d)) (?old @ [?doc])
          = ?doc # sort_descending (\<lambda>d. dt_key (trip_created_at d)) ?old"
    using older by (rule sort_descending_newest)
  then have "get_trip_history (db\<lparr>trip_history := trip_history db @ [?doc],
                 next_oid := Suc (next_oid db)\<rparr>) uid 1 = [?doc\<lparr>trip_oid := IdText (next_oid db)\<rparr>]"
    using assms(1)
    by (simp add: get_trip_history_def find_trips_def store_call_def cursor_limit_def str_id_def)
  with saved get_trip_history_sorted[of db' uid' limit] show ?thesis
    by simp
qed

lemma one_trip_store_value:
  "one_trip_store =
     \<lparr>user_preferences = [],
      trip_history =
        [\<lparr>trip_oid = ObjectId 0, trip_user_id = ''default_user'',
          trip_id = ''default_user_20250601_120000'',
          trip_destination = Some ''Paris'', trip_start_date = None, trip_end_date = None,
          trip_preferences = None, trip_budget = Some ''moderate'', trip_itinerary = None,
          trip_created_at = noon_early\<rparr>],
      agent_memory = [], next_oid = 1, fault = None\<rparr>"
  by (simp add: one_trip_store_def fresh_store_def empty_store_def save_trip_history_def
      insert_one_trip_def store_call_def paris_trip_def strftime_trip_def pad2_def pad4_def
      digit_def char_of_def bit_Suc_0_iff noon_early_def bson_datetime_def)

lemma evening_facts:
  "bson_datetime evening = evening"
  "''default_user'' @ ''_'' @ strftime_trip evening = ''default_user_20250601_193015''"
  "dt_key noon_early < dt_key evening"
  by (simp_all add: bson_datetime_def strftime_trip_def pad2_def pad4_def digit_def char_of_def
      bit_Suc_0_iff dt_key_def noon_early_def evening_def)

lemma rome_trip_fields:
  "rome_trip ''destination'' = Some ''Rome''" "rome_trip ''start_date'' = None"
  "rome_trip ''end_date'' = None" "rome_trip ''preferences'' = None"
  "rome_trip ''budget'' = Some ''luxury''" "rome_trip ''itinerary'' = None"
  by (simp_all add: rome_trip_def)

theorem append_trip_then_list_witness:
  "get_trip_history (snd (save_trip_history one_trip_store ''default_user'' rome_trip evening evening))
      ''default_user'' 1
     = [\<lparr>trip_oid = IdText 1, trip_user_id = ''default_user'',
         trip_id = ''default_user_20250601_193015'',
         trip_destination = Some ''Rome'', trip_start_date = None, trip_end_date = None,
         trip_preferences = None, trip_budget = Some ''luxury'', trip_itinerary = None,
         trip_created_at = evening\<rparr>]"
proof -
  have up: "fault one_trip_store = None"
    by (simp add: one_trip_store_value)
  have later: "\<forall>t \<in> set (trip_history one_trip_store).
           trip_user_id t = ''default_user'' \<longrightarrow>
             dt_key (trip_created_at t) < dt_key (bson_datetime evening)"
    by (simp add: one_trip_store_value evening_facts)
  have n: "next_oid one_trip_store = 1"
    by (simp add: one_trip_store_value)
  show ?thesis
    using append_trip_then_list[where db = one_trip_store and uid = "''default_user''"
        and created = evening and trip_data = rome_trip and stamp = evening, OF up later,
        THEN conjunct2, THEN conjunct1]
    unfolding n evening_facts rome_trip_fields .
qed

text \<open>
  C1 as stated fails where the clock reading of the new record is not later than the
  stored ones: \<open>created_at\<close> is the wall clock, kept to the millisecond. After Paris is
  saved at 12:00:00.100100 and Rome at 12:00:00.100900 both records carry the stamp
  12:00:00.100, and after Paris is saved in the evening and Rome with the clock set back to
  noon the record just written is the older one; in both cases \<open>get_trip_history\<close> with
  limit 1 returns Paris, not the record just written.
\<close>

theorem append_trip_then_list_counterexample:
  "map trip_created_at (trip_history (snd (save_trip_history
        (snd (save_trip_history fresh_store ''default_user'' paris_trip noon_ms_early noon_ms_early))
        ''default_user'' rome_trip noon_ms_late noon_ms_late)))
     = [noon_early, noon_early]
   \<and> map trip_destination (get_trip_history (snd (save_trip_history
        (snd (save_trip_history fresh_store ''default_user'' paris_trip noon_ms_early noon_ms_early))
        ''default_user'' rome_trip noon_ms_late noon_ms_late)) ''default_user'' 1)
     = [Some ''Paris'']
   \<and> map trip_destination (get_trip_history (snd (save_trip_history
        (snd (save_trip_history fresh_store ''default_user'' paris_trip evening evening))
        ''default_user'' rome_trip noon_early noon_early)) ''default_user'' 1)
     = [Some ''Paris'']"
  by (simp add: noon_ms_early_def noon_ms_late_def noon_early_def evening_def fresh_store_def
      empty_store_def save_trip_history_def insert_one_trip_def store_call_def paris_trip_def
      rome_trip_def strftime_trip_def pad2_def pad4_def digit_def char_of_def bit_Suc_0_iff
      bson_datetime_def get_trip_history_def find_trips_def cursor_limit_def
      sort_descending_def dt_key_def)

lemma strftime_same_second: "same_second a b \<Longrightarrow> strftime_trip a = strftime_trip b"
  by (simp add: same_second_def strftime_trip_def)

lemma save_trip_history_ok:
  assumes "fault db = None"
  shows "save_trip_history db uid trip_data now1 now2
     = (True, db\<lparr>trip_history := trip_history db @
          [\<lparr>trip_oid = ObjectId (next_oid db), trip_user_id = uid,
            trip_id = uid @ ''_'' @ strftime_trip now1,
            trip_destination = trip_data ''destination'',
            trip_start_date = trip_data ''start_date'',
            trip_end_date = trip_data ''end_date'',
            trip_preferences = trip_data ''preferences'',
            trip_budget = trip_data ''budget'',
            trip_itinerary = trip_data ''itinerary'',
            trip_created_at = bson_datetime now2\<rparr>],
          next_oid := Suc (next_oid db)\<rparr>)"
  using assms by (simp add: save_trip_history_def insert_one_trip_def store_call_def)

text \<open>
  C5, as the code has it. Two \<open>save_trip_history\<close> calls for the same user whose clock
  readings fall within the same second build equal \<open>trip_id\<close> values. The second write
  is not rejected, and it replaces nothing: both records are stored, one after the other,
  each under its own \<open>_id\<close>.
\<close>

theorem same_second_trips_both_kept:
  assumes "same_second ta tb" and "fault db = None"
  shows "uid @ ''_'' @ strftime_trip ta = uid @ ''_'' @ strftime_trip tb
     \<and> fst (save_trip_history db uid da ta ca)
     \<and> fst (save_trip_history (snd (save_trip_history db uid da ta ca)) uid dd tb cb)
     \<and> trip_history (snd (save_trip_history (snd (save_trip_history db uid da ta ca)) uid dd tb cb))
         = trip_history db @
           [\<lparr>trip_oid = ObjectId (next_oid db), trip_user_id = uid,
             trip_id = uid @ ''_'' @ strftime_trip ta,
             trip_destination = da ''destination'', trip_start_date = da ''start_date'',
             trip_end_date = da ''end_date'', trip_preferences = da ''preferences'',
             trip_budget = da ''budget'', trip_itinerary = da ''itinerary'',
             trip_created_at = bson_datetime ca\<rparr>,
            \<lparr>trip_oid = ObjectId (Suc (next_oid db)), trip_user_id = uid,
             trip_id = uid @ ''_'' @ strftime_trip tb,
             trip_destination = dd ''destination'', trip_start_date = dd ''start_date'',
             trip_end_date = dd ''end_date'', trip_preferences = dd ''preferences'',
             trip_budget = dd ''budget'', trip_itinerary = dd ''itinerary'',
             trip_created_at = bson_datetime cb\<rparr>]"
proof -
  have id: "uid @ ''_'' @ strftime_trip ta = uid @ ''_'' @ strftime_trip tb"
    using strftime_same_second[OF assms(1)] by simp
  show ?thesis
    unfolding save_trip_history_ok[OF assms(2)] using id assms(2)
    by (simp add: save_trip_history_ok)
qed

theorem same_second_trips_both_kept_witness:
  "same_second noon_early noon_late
   \<and> map trip_id (trip_history (snd (save_trip_history
          (snd (save_trip_history fresh_store ''default_user'' paris_trip noon_early noon_early))
          ''default_user'' rome_trip noon_late noon_late)))
       = [''default_user_20250601_120000'', ''default_user_20250601_120000'']"
proof -
  have s: "same_second noon_early noon_late"
    by (simp add: same_second_def noon_early_def noon_late_def)
  have up: "fault fresh_store = None"
    by (simp add: fresh_store_def empty_store_def)
  have i: "''default_user'' @ ''_'' @ strftime_trip noon_early = ''default_user_20250601_120000''"
    "''default_user'' @ ''_'' @ strftime_trip noon_late = ''default_user_20250601_120000''"
    by (simp_all add: strftime_trip_def pad2_def pad4_def digit_def char_of_def bit_Suc_0_iff
        noon_early_def noon_late_def)
  have e: "trip_history fresh_store = []"
    by (simp add: fresh_store_def empty_store_def)
  show ?thesis
    using s same_second_trips_both_kept[OF s up, of "''default_user''" paris_trip noon_early
        rome_trip noon_late, THEN conjunct2, THEN conjunct2, THEN conjunct2]
    unfolding i e by simp
qed

text \<open>
  C5 as stated fails: after two writes within the same second the first record is still
  stored beside the second, under the same \<open>trip_id\<close>; the last write has not won.
\<close>

theorem same_second_last_write_counterexample:
  "same_second noon_early noon_late
   \<and> map trip_id (trip_history (snd (save_trip_history
          (snd (save_trip_history fresh_store ''default_user'' paris_trip noon_early noon_early))
          ''default_user'' rome_trip noon_late noon_late)))
       = [''default_user_20250601_120000'', ''default_user_20250601_120000'']
   \<and> map trip_destination (trip_history (snd (save_trip_history
          (snd (save_trip_history fresh_store ''default_user'' paris_trip noon_early noon_early))
          ''default_user'' rome_trip noon_late noon_late)))
       = [Some ''Paris'', Some ''Rome'']
   \<and> map trip_destination (get_trip_history (snd (save_trip_history
          (snd (save_trip_history fresh_store ''default_user'' paris_trip noon_early noon_early))
          ''default_user'' rome_trip noon_late noon_late)) ''default_user'' 10)
       = [Some ''Rome'', Some ''Paris'']"
  by (simp add: same_second_def noon_early_def noon_late_def fresh_store_def empty_store_def
      save_trip_history_def insert_one_trip_def store_call_def paris_trip_def rome_trip_def
      strftime_trip_def pad2_def pad4_def digit_def char_of_def bit_Suc_0_iff bson_datetime_def
      get_trip_history_def find_trips_def cursor_limit_def sort_descending_def dt_key_def)

text \<open>
  C6. When the store call fails, no method of \<open>TravelDatabase\<close> passes the failure on:
  \<open>get_user_preferences\<close> returns \<open>None\<close>, \<open>get_trip_history\<close>,
  \<open>get_agent_memory\<close> and \<open>search_destinations\<close> return the empty list,
  \<open>get_database_stats\<close> returns its error record, and the three save methods return
  \<open>False\<close> and leave the store as it was.
\<close>

theorem store_failure_degrades:
  assumes "fault db = Some e"
  shows "get_user_preferences db uid = None
     \<and> get_trip_history db uid limit = []
     \<and> get_agent_memory db uid agent_type limit = []
     \<and> search_destinations matches db query limit = []
     \<and> get_database_stats db names = StatsError e ''Disconnected''
     \<and> save_user_preferences db uid prefs stamp created = (False, db)
     \<and> save_trip_history db uid trip_data stamp created = (False, db)
     \<and> save_agent_memory db uid a conversation response stamp = (False, db)"
  using assms
  by (simp add: get_user_preferences_def find_one_preferences_def get_trip_history_def
      find_trips_def get_agent_memory_def find_memory_def search_destinations_def
      find_destinations_def get_database_stats_def save_user_preferences_def
      replace_one_upsert_preferences_def save_trip_history_def insert_one_trip_def
      save_agent_memory_def insert_one_memory_def store_call_def)

theorem store_failure_degrades_witness:
  "get_user_preferences down_store ''default_user'' = None
   \<and> get_trip_history down_store ''default_user'' 10 = []
   \<and> get_agent_memory down_store ''default_user'' None 20 = []
   \<and> save_trip_history down_store ''default_user'' paris_trip noon_early noon_late
       = (False, down_store)"
proof -
  have f: "fault down_store = Some ''ServerSelectionTimeoutError''"
    by (simp add: down_store_def)
  show ?thesis
    using store_failure_degrades[OF f, where uid = "''default_user''" and limit = 10
        and trip_data = paris_trip and stamp = noon_early and created = noon_late]
      store_failure_degrades[OF f, where uid = "''default_user''" and limit = 20
        and agent_type = None]
    by blast
qed

lemma filter_replace_first:
  assumes "\<And>x. P x \<Longrightarrow> P (f x)"
  shows "filter P (replace_first P f xs)
           = (case filter P xs of [] \<Rightarrow> [] | y # ys \<Rightarrow> f y # ys)"
  using assms by (induction xs) auto

lemma filter_other_replace_first:
  assumes "\<And>x. P x \<Longrightarrow> P (f x)"
  shows "filter (\<lambda>x. \<not> P x) (replace_first P f xs) = filter (\<lambda>x. \<not> P x) xs"
  using assms by (induction xs) auto

lemma find_filter_hd:
  "List.find P xs = (case filter P xs of [] \<Rightarrow> None | y # ys \<Rightarrow> Some y)"
  by (induction xs) auto

lemma list_ex_filter: "list_ex P xs \<longleftrightarrow> filter P xs \<noteq> []"
  by (induction xs) auto

lemma save_user_preferences_filter:
  assumes "fault db = None"
  shows "fst (save_user_preferences db uid p a b)"
    and "fault (snd (save_user_preferences db uid p a b)) = None"
    and "filter (\<lambda>d. pref_user_id d = uid) (user_preferences (snd (save_user_preferences db uid p a b)))
       = (case filter (\<lambda>d. pref_user_id d = uid) (user_preferences db) of
            [] \<Rightarrow> [\<lparr>pref_oid = ObjectId (next_oid db), pref_user_id = uid, pref_preferences = p,
                    pref_created_at = bson_datetime a, pref_updated_at = bson_datetime b\<rparr>]
          | y # ys \<Rightarrow> \<lparr>pref_oid = pref_oid y, pref_user_id = uid, pref_preferences = p,
                      pref_created_at = bson_datetime a, pref_updated_at = bson_datetime b\<rparr> # ys)"
    and "filter (\<lambda>d. \<not> pref_user_id d = uid) (user_preferences (snd (save_user_preferences db uid p a b)))
       = filter (\<lambda>d. \<not> pref_user_id d = uid) (user_preferences db)"
proof -
  let ?P = "\<lambda>d. pref_user_id d = uid"
  let ?f = "\<lambda>d. \<lparr>pref_oid = pref_oid d, pref_user_id = uid, pref_preferences = p,
                 pref_created_at = bson_datetime a, pref_updated_at = bson_datetime b\<rparr>"
  have keep: "\<And>x. ?P x \<Longrightarrow> ?P (?f x)"
    by simp
  have eq: "save_user_preferences db uid p a b =
     (True, if list_ex ?P (user_preferences db)
        then db\<lparr>user_preferences := replace_first ?P ?f (user_preferences db)\<rparr>
        else db\<lparr>user_preferences :=
                  user_preferences db @ [\<lparr>pref_oid = ObjectId (next_oid db), pref_user_id = uid,
                     pref_preferences = p, pref_created_at = bson_datetime a,
                     pref_updated_at = bson_datetime b\<rparr>],
                next_oid := Suc (next_oid db)\<rparr>)"
    using assms
    by (simp add: save_user_preferences_def replace_one_upsert_preferences_def store_call_def)
  show "fst (save_user_preferences db uid p a b)"
    by (simp add: eq)
  show "fault (snd (save_user_preferences db uid p a b)) = None"
    using assms by (simp add: eq)
  show "filter ?P (user_preferences (snd (save_user_preferences db uid p a b)))
       = (case filter ?P (user_preferences db) of
            [] \<Rightarrow> [\<lparr>pref_oid = ObjectId (next_oid db), pref_user_id = uid, pref_preferences = p,
                    pref_created_at = bson_datetime a, pref_updated_at = bson_datetime b\<rparr>]
          | y # ys \<Rightarrow> ?f y # ys)"
  proof (cases "filter ?P (user_preferences db)")
    case Nil
    then show ?thesis
      by (simp add: eq list_ex_filter)
  next
    case (Cons y ys)
    then show ?thesis
      using filter_replace_first[of ?P ?f "user_preferences db", OF keep]
      by (simp add: eq list_ex_filter)
  qed
  show "filter (\<lambda>d. \<not> ?P d) (user_preferences (snd (save_user_preferences db uid p a b)))
       = filter (\<lambda>d. \<not> ?P d) (user_preferences db)"
    using filter_other_replace_first[of ?P ?f "user_preferences db", OF keep]
    by (simp add: eq)
qed

lemma get_user_preferences_filter:
  assumes "fault db = None"
  shows "get_user_preferences db uid
     = (case filter (\<lambda>d. pref_user_id d = uid) (user_preferences db) of
          [] \<Rightarrow> None | y # ys \<Rightarrow> Some (pref_preferences y))"
  using assms
  by (simp add: get_user_preferences_def find_one_preferences_def store_call_def find_filter_hd
      split: list.splits)

lemma save_user_preferences_keeps_one_per_user:
  assumes "\<And>u. length (filter (\<lambda>d. pref_user_id d = u) (user_preferences db)) \<le> 1"
  shows "length (filter (\<lambda>d. pref_user_id d = u)
            (user_preferences (snd (save_user_preferences db uid p a b)))) \<le> 1"
proof (cases "fault db")
  case (Some e)
  then show ?thesis
    using assms
    by (simp add: save_user_preferences_def replace_one_upsert_preferences_def store_call_def)
next
  case None
  note s = save_user_preferences_filter[OF None, of uid p a b]
  show ?thesis
  proof (cases "u = uid")
    case True
    then show ?thesis
      using s(3) assms[of uid]
      by (cases "filter (\<lambda>d. pref_user_id d = uid) (user_preferences db)") auto
  next
    case False
    let ?new = "user_preferences (snd (save_user_preferences db uid p a b))"
    have "filter (\<lambda>d. pref_user_id d = u) ?new
            = filter (\<lambda>d. pref_user_id d = u) (filter (\<lambda>d. \<not> pref_user_id d = uid) ?new)"
      using False by (auto intro: filter_cong)
    also have "\<dots> = filter (\<lambda>d. pref_user_id d = u)
                        (filter (\<lambda>d. \<not> pref_user_id d = uid) (user_preferences db))"
      by (simp only: s(4))
    also have "\<dots> = filter (\<lambda>d. pref_user_id d = u) (user_preferences db)"
      using False by (auto intro: filter_cong)
    finally show ?thesis
      using assms[of u] by simp
  qed
qed

text \<open>
  C7. When the store answers and holds at most one preference record for the user (as
  every store written through \<open>save_user_preferences\<close> alone does), two calls of
  \<open>save_user_preferences\<close> for that user both succeed and leave exactly one record for
  the user; its preferences are those of the second call, which is also what
  \<open>get_user_preferences\<close> then returns.
\<close>

theorem upsert_twice_one_record:
  assumes "fault db = None"
    and "length (filter (\<lambda>d. pref_user_id d = uid) (user_preferences db)) \<le> 1"
  shows "length (filter (\<lambda>d. pref_user_id d = uid)
            (user_preferences (snd (save_user_preferences
               (snd (save_user_preferences db uid p sa sb)) uid q ta tb)))) = 1
     \<and> map pref_preferences (filter (\<lambda>d. pref_user_id d = uid)
            (user_preferences (snd (save_user_preferences
               (snd (save_user_preferences db uid p sa sb)) uid q ta tb)))) = [q]
     \<and> get_user_preferences (snd (save_user_preferences
               (snd (save_user_preferences db uid p sa sb)) uid q ta tb)) uid = Some q
     \<and> fst (save_user_preferences db uid p sa sb)
     \<and> fst (save_user_preferences (snd (save_user_preferences db uid p sa sb)) uid q ta tb)"
proof -
  let ?mid = "snd (save_user_preferences db uid p sa sb)"
  let ?fin = "snd (save_user_preferences ?mid uid q ta tb)"
  let ?P = "\<lambda>d. pref_user_id d = uid"
  note s = save_user_preferences_filter[OF assms(1), of uid p sa sb]
  note t = save_user_preferences_filter[OF s(2), of uid q ta tb]
  obtain y where one: "filter ?P (user_preferences ?mid) = [y]"
    using s(3) assms(2) by (cases "filter ?P (user_preferences db)") auto
  have two: "filter ?P (user_preferences ?fin)
      = [\<lparr>pref_oid = pref_oid y, pref_user_id = uid, pref_preferences = q,
          pref_created_at = bson_datetime ta, pref_updated_at = bson_datetime tb\<rparr>]"
    using t(3) one by simp
  have "get_user_preferences ?fin uid = Some q"
    using get_user_preferences_filter[OF t(2), of uid] two by simp
  with two s(1) t(1) show ?thesis
    by simp
qed

theorem upsert_twice_one_record_witness:
  "get_user_preferences (snd (save_user_preferences
       (snd (save_user_preferences fresh_store ''default_user'' ''beaches'' noon_early noon_early))
       ''default_user'' ''museums'' evening evening)) ''default_user'' = Some ''museums''
   \<and> length (filter (\<lambda>d. pref_user_id d = ''default_user'')
        (user_preferences (snd (save_user_preferences
           (snd (save_user_preferences fresh_store ''default_user'' ''beaches'' noon_early noon_early))
           ''default_user'' ''museums'' evening evening)))) = 1"
proof -
  have up: "fault fresh_store = None"
    by (simp add: fresh_store_def empty_store_def)
  have few: "length (filter (\<lambda>d. pref_user_id d = ''default_user'') (user_preferences fresh_store)) \<le> 1"
    by (simp add: fresh_store_def empty_store_def)
  show ?thesis
    using upsert_twice_one_record[OF up few, of "''beaches''" noon_early noon_early
        "''museums''" evening evening]
    by blast
qed

section \<open>The scheduler\<close>

text \<open>
  C9. \<open>chat_with_agent\<close> runs the itinerary agent on the message when the agent type is
  \<open>itinerary\<close>, the memory agent when it is \<open>memory\<close>, and the advisor agent when it
  is \<open>advisor\<close> or any other text; the answer returned is that agent's, and the other
  two agents are not run.
\<close>

theorem chat_dispatch:
  "(kind = ''itinerary'' \<longrightarrow>
      fst (chat_with_agent s m kind now) = respond (itinerary_agent s) m
      \<and> inbox (itinerary_agent (snd (chat_with_agent s m kind now))) = inbox (itinerary_agent s) @ [m]
      \<and> advisor_agent (snd (chat_with_agent s m kind now)) = advisor_agent s
      \<and> memory_agent (snd (chat_with_agent s m kind now)) = memory_agent s)
   \<and> (kind = ''memory'' \<longrightarrow>
      fst (chat_with_agent s m kind now) = respond (memory_agent s) m
      \<and> inbox (memory_agent (snd (chat_with_agent s m kind now))) = inbox (memory_agent s) @ [m]
      \<and> advisor_agent (snd (chat_with_agent s m kind now)) = advisor_agent s
      \<and> itinerary_agent (snd (chat_with_agent s m kind now)) = itinerary_agent s)
   \<and> (kind = ''advisor'' \<or> (kind \<noteq> ''itinerary'' \<and> kind \<noteq> ''memory'') \<longrightarrow>
      fst (chat_with_agent s m kind now) = respond (advisor_agent s) m
      \<and> inbox (advisor_agent (snd (chat_with_agent s m kind now))) = inbox (advisor_agent s) @ [m]
      \<and> itinerary_agent (snd (chat_with_agent s m kind now)) = itinerary_agent s
      \<and> memory_agent (snd (chat_with_agent s m kind now)) = memory_agent s)"
proof -
  have adv: "kind = ''advisor'' \<Longrightarrow> kind \<noteq> ''itinerary'' \<and> kind \<noteq> ''memory''"
    by simp
  have mem: "kind = ''memory'' \<Longrightarrow> kind \<noteq> ''itinerary''"
    by simp
  show ?thesis
    using adv mem
    by (cases "self_db s") (auto simp add: chat_with_agent_def run_def Let_def split: prod.splits)
qed

theorem chat_dispatch_witness:
  "fst (chat_with_agent sample_scheduler ''Where next?'' ''concierge'' noon_early)
     = ''advice on Where next?''"
proof -
  have other: "''concierge'' = ''advisor'' \<or> (''concierge'' \<noteq> ''itinerary'' \<and> ''concierge'' \<noteq> ''memory'')"
    by simp
  have "fst (chat_with_agent sample_scheduler ''Where next?'' ''concierge'' noon_early)
          = respond (advisor_agent sample_scheduler) ''Where next?''"
    using chat_dispatch[where kind = "''concierge''" and s = sample_scheduler
        and m = "''Where next?''" and now = noon_early, THEN conjunct2, THEN conjunct2] other
    by blast
  then show ?thesis
    by (simp add: sample_scheduler_def echo_agent_def)
qed

end
